theory Spec2Isabelle
  imports Complex_Main
begin

section \<open>Numbers, arrays and Python errors\<close>

text \<open>
  The aggregation functions of \<^verbatim>\<open>src/src/server_app/strategy/aggregate.py\<close> work on
  lists of numpy arrays of 64-bit floats. A float is modelled as a real number, an
  infinity with its sign (\<open>Infty True\<close> is \<open>+inf\<close>) or NaN. Finite arithmetic is exact
  (rounding and overflow of finite values are not modelled, and the two zeros are one),
  the special values follow IEEE 754 as numpy applies it: with numpy's default error
  state a division by zero is a RuntimeWarning and a value, never an exception.
\<close>

datatype npfloat = Num real | Infty bool | NaN

fun fl_neg :: "npfloat \<Rightarrow> npfloat" where
  "fl_neg (Num x) = Num (- x)"
| "fl_neg (Infty s) = Infty (\<not> s)"
| "fl_neg NaN = NaN"

fun fl_add :: "npfloat \<Rightarrow> npfloat \<Rightarrow> npfloat" where
  "fl_add (Num x) (Num y) = Num (x + y)"
| "fl_add (Num x) (Infty t) = Infty t"
| "fl_add (Infty s) (Num y) = Infty s"
| "fl_add (Infty s) (Infty t) = (if s = t then Infty s else NaN)"
| "fl_add NaN b = NaN"
| "fl_add a NaN = NaN"

definition fl_sub :: "npfloat \<Rightarrow> npfloat \<Rightarrow> npfloat" where
  "fl_sub a b = fl_add a (fl_neg b)"

fun fl_mul :: "npfloat \<Rightarrow> npfloat \<Rightarrow> npfloat" where
  "fl_mul (Num x) (Num y) = Num (x * y)"
| "fl_mul (Num x) (Infty t) = (if x = 0 then NaN else Infty (t = (0 < x)))"
| "fl_mul (Infty s) (Num y) = (if y = 0 then NaN else Infty (s = (0 < y)))"
| "fl_mul (Infty s) (Infty t) = Infty (s = t)"
| "fl_mul NaN b = NaN"
| "fl_mul a NaN = NaN"

fun fl_div :: "npfloat \<Rightarrow> npfloat \<Rightarrow> npfloat" where
  "fl_div (Num x) (Num y) =
     (if y \<noteq> 0 then Num (x / y) else if x = 0 then NaN else Infty (0 < x))"
| "fl_div (Num x) (Infty t) = Num 0"
| "fl_div (Infty s) (Num y) = Infty (s = (0 \<le> y))"
| "fl_div (Infty s) (Infty t) = NaN"
| "fl_div NaN b = NaN"
| "fl_div a NaN = NaN"

text \<open>A Python \<open>int\<close> that meets a float array is converted to a float first.\<close>

definition fl_of_int :: "int \<Rightarrow> npfloat" where
  "fl_of_int n = Num (of_int n)"

text \<open>
  An array has a shape and its elements in row-major order; it is well formed when the
  number of elements is the product of the shape. A layer of a ParameterSet is an array,
  a ParameterSet (\<open>NDArrays\<close>) a list of them.
\<close>

datatype ndarray = NDArray (shape: "nat list") (data: "npfloat list")

definition wf_array :: "ndarray \<Rightarrow> bool" where
  "wf_array a = (length (data a) = prod_list (shape a))"

type_synonym ndarrays = "ndarray list"

datatype pyerror =
    ValueError | IndexError | KeyError | TypeError | AssertionError
  | ZeroDivisionError | RuntimeError | UnboundLocalError

subsection \<open>Broadcasting\<close>

text \<open>
  numpy aligns two shapes at their last dimension; two dimensions are compatible when
  they are equal or one of them is 1, and a missing leading dimension counts as 1.
  \<open>broadcast_dims\<close> works on the reversed shapes.
\<close>

fun broadcast_dims :: "nat list \<Rightarrow> nat list \<Rightarrow> nat list option" where
  "broadcast_dims [] ys = Some ys"
| "broadcast_dims (x # xs) [] = Some (x # xs)"
| "broadcast_dims (x # xs) (y # ys) =
     (if x = y \<or> y = 1 then map_option ((#) x) (broadcast_dims xs ys)
      else if x = 1 then map_option ((#) y) (broadcast_dims xs ys)
      else None)"

definition broadcast_shapes :: "nat list \<Rightarrow> nat list \<Rightarrow> nat list option" where
  "broadcast_shapes s t = map_option rev (broadcast_dims (rev s) (rev t))"

fun chunks :: "nat \<Rightarrow> nat \<Rightarrow> 'a list \<Rightarrow> 'a list list" where
  "chunks 0 c xs = []"
| "chunks (Suc n) c xs = take c xs # chunks n c (drop c xs)"

text \<open>
  \<open>expand s t xs\<close> repeats the elements \<open>xs\<close> of an array of shape \<open>s\<close> to the shape
  \<open>t\<close> of the same rank, along every dimension where \<open>s\<close> is 1 and \<open>t\<close> is not.
\<close>

fun expand :: "nat list \<Rightarrow> nat list \<Rightarrow> 'a list \<Rightarrow> 'a list" where
  "expand (s # ss) (t # ts) xs =
     (if s = t then concat (map (expand ss ts) (chunks s (prod_list ss) xs))
      else concat (replicate t (expand ss ts xs)))"
| "expand [] ts xs = xs"
| "expand ss [] xs = xs"

definition broadcast_to :: "ndarray \<Rightarrow> nat list \<Rightarrow> npfloat list" where
  "broadcast_to a t =
     expand (replicate (length t - length (shape a)) 1 @ shape a) t (data a)"

text \<open>
  A binary numpy operation on two arrays (\<open>np.add\<close>, \<open>-\<close>): \<open>ValueError\<close> when the
  shapes cannot be broadcast together, a new array otherwise.
\<close>

definition ufunc2 ::
  "(npfloat \<Rightarrow> npfloat \<Rightarrow> npfloat) \<Rightarrow> ndarray \<Rightarrow> ndarray \<Rightarrow> pyerror + ndarray" where
  "ufunc2 f a b =
     (case broadcast_shapes (shape a) (shape b) of
        None \<Rightarrow> Inl ValueError
      | Some t \<Rightarrow> Inr (NDArray t (map2 f (broadcast_to a t) (broadcast_to b t))))"

definition np_add :: "ndarray \<Rightarrow> ndarray \<Rightarrow> pyerror + ndarray" where
  "np_add = ufunc2 fl_add"

definition np_sub :: "ndarray \<Rightarrow> ndarray \<Rightarrow> pyerror + ndarray" where
  "np_sub = ufunc2 fl_sub"

text \<open>An array and a scalar: the scalar meets every element, the shape stays.\<close>

definition scalar_op :: "(npfloat \<Rightarrow> npfloat \<Rightarrow> npfloat) \<Rightarrow> ndarray \<Rightarrow> npfloat \<Rightarrow> ndarray" where
  "scalar_op f a c = NDArray (shape a) (map (\<lambda>x. f x c) (data a))"

section \<open>Python's zip, reduce and list comprehensions\<close>

text \<open>\<open>zip(*xss)\<close>: the tuples of the i-th elements, as many as the shortest list has; none for no list.\<close>

fun transpose_n :: "nat \<Rightarrow> 'a list list \<Rightarrow> 'a list list" where
  "transpose_n 0 xss = []"
| "transpose_n (Suc k) xss = map hd xss # transpose_n k (map tl xss)"

definition zip_star :: "'a list list \<Rightarrow> 'a list list" where
  "zip_star xss = (if xss = [] then [] else transpose_n (min_list (map length xss)) xss)"

text \<open>\<open>functools.reduce\<close> without an initial value: from the left; \<open>TypeError\<close> on no element.\<close>

fun reduce_from :: "('a \<Rightarrow> 'a \<Rightarrow> pyerror + 'a) \<Rightarrow> 'a \<Rightarrow> 'a list \<Rightarrow> pyerror + 'a" where
  "reduce_from f acc [] = Inr acc"
| "reduce_from f acc (y # ys) =
     (case f acc y of Inl e \<Rightarrow> Inl e | Inr acc' \<Rightarrow> reduce_from f acc' ys)"

fun reduce :: "('a \<Rightarrow> 'a \<Rightarrow> pyerror + 'a) \<Rightarrow> 'a list \<Rightarrow> pyerror + 'a" where
  "reduce f [] = Inl TypeError"
| "reduce f (x # xs) = reduce_from f x xs"

text \<open>A list comprehension whose element expression may raise: the first error ends it.\<close>

fun try_map :: "('a \<Rightarrow> pyerror + 'b) \<Rightarrow> 'a list \<Rightarrow> pyerror + 'b list" where
  "try_map f [] = Inr []"
| "try_map f (x # xs) =
     (case f x of
        Inl e \<Rightarrow> Inl e
      | Inr y \<Rightarrow> (case try_map f xs of Inl e \<Rightarrow> Inl e | Inr ys \<Rightarrow> Inr (y # ys)))"

section \<open>The aggregation engine\<close>

subsection \<open>aggregate\<close>

text \<open>
  \<^verbatim>\<open>
  def aggregate(results):
      num_examples_total = sum([num_examples for _, num_examples in results])
      weighted_weights = [
          [layer * num_examples for layer in weights] for weights, num_examples in results
      ]
      weights_prime = [
          reduce(np.add, layer_updates) / num_examples_total
          for layer_updates in zip(*weighted_weights)
      ]
      return weights_prime
  \<close>
\<close>

definition average_layer :: "int \<Rightarrow> ndarray list \<Rightarrow> pyerror + ndarray" where
  "average_layer num_examples_total layer_updates =
     (case reduce np_add layer_updates of
        Inl e \<Rightarrow> Inl e
      | Inr s \<Rightarrow> Inr (scalar_op fl_div s (fl_of_int num_examples_total)))"

definition aggregate :: "(ndarrays \<times> int) list \<Rightarrow> pyerror + ndarrays" where
  "aggregate results =
     (let num_examples_total = sum_list (map snd results);
          weighted_weights =
            map (\<lambda>(weights, num_examples).
                   map (\<lambda>layer. scalar_op fl_mul layer (fl_of_int num_examples)) weights)
                results
      in try_map (average_layer num_examples_total) (zip_star weighted_weights))"

text \<open>
  Two notions used to state what \<open>aggregate\<close> computes: the number of layers of the
  shortest contribution (where \<open>zip\<close> stops), and the tuple \<open>layer_updates\<close> that \<open>zip\<close>
  yields at layer index \<open>i\<close>: every client's layer \<open>i\<close> times its number of examples.
\<close>

definition layer_count :: "(ndarrays \<times> int) list \<Rightarrow> nat" where
  "layer_count results = min_list (map (\<lambda>(weights, num_examples). length weights) results)"

definition layer_updates_at :: "(ndarrays \<times> int) list \<Rightarrow> nat \<Rightarrow> ndarray list" where
  "layer_updates_at results i =
     map (\<lambda>(weights, num_examples). scalar_op fl_mul (weights ! i) (fl_of_int num_examples)) results"

text \<open>
  The vocabulary of the claims about \<open>aggregate\<close>. A float is finite when it is a
  number, an array when all its elements are. The contributions are structurally identical
  when every ParameterSet has the same list of shapes and well-formed arrays.
  \<open>weighted_elem r i j\<close> is element \<open>j\<close> of layer \<open>i\<close> of a contribution times its
  number of examples, as a float; \<open>mean_elem results i j\<close> is what the code computes for
  element \<open>j\<close> of layer \<open>i\<close>: the sum from the left over the clients, divided by the
  total number of examples.
\<close>

fun num_of :: "npfloat \<Rightarrow> real" where
  "num_of (Num x) = x"
| "num_of (Infty s) = 0"
| "num_of NaN = 0"

fun is_num :: "npfloat \<Rightarrow> bool" where
  "is_num (Num x) = True"
| "is_num (Infty s) = False"
| "is_num NaN = False"

definition finite_array :: "ndarray \<Rightarrow> bool" where
  "finite_array a = list_all is_num (data a)"

definition finite_results :: "(ndarrays \<times> int) list \<Rightarrow> bool" where
  "finite_results results =
     list_all (\<lambda>(weights, num_examples). list_all finite_array weights) results"

definition same_structure :: "nat list list \<Rightarrow> (ndarrays \<times> int) list \<Rightarrow> bool" where
  "same_structure shapes results =
     list_all (\<lambda>(weights, num_examples).
        map shape weights = shapes \<and> list_all wf_array weights) results"

definition weighted_elem :: "ndarrays \<times> int \<Rightarrow> nat \<Rightarrow> nat \<Rightarrow> npfloat" where
  "weighted_elem r i j = fl_mul (data (fst r ! i) ! j) (fl_of_int (snd r))"

definition mean_elem :: "(ndarrays \<times> int) list \<Rightarrow> nat \<Rightarrow> nat \<Rightarrow> npfloat" where
  "mean_elem results i j =
     fl_div (foldl fl_add (weighted_elem (hd results) i j)
               (map (\<lambda>r. weighted_elem r i j) (tl results)))
            (fl_of_int (sum_list (map snd results)))"

section \<open>The server's per-round configuration\<close>

text \<open>
  \<^verbatim>\<open>src/face_verification/server.py\<close>: the parsed command line (\<open>args\<close>) and the
  function \<open>fit_config\<close> that the strategy calls with the round number to build the
  configuration it sends to every client. A configuration is a Python dictionary from
  strings to scalars; a value may also be \<open>None\<close>.
\<close>

datatype scalar = SBool bool | SBytes string | SFloat npfloat | SInt int | SStr string | SNone

type_synonym config = "string \<rightharpoonup> scalar"

record args =
  args_server_address :: string
  args_dataset :: string
  args_target :: string
  args_model :: string
  args_pretrained :: "string option"
  args_num_rounds :: int
  args_num_clients :: int
  args_local_epochs :: int
  args_batch_size :: int
  args_lr :: npfloat
  args_weight_decay :: npfloat
  args_criterion :: string
  args_scale :: npfloat
  args_margin :: npfloat
  args_save_model :: int
  args_seed :: int

definition fit_config :: "args \<Rightarrow> int \<Rightarrow> config" where
  "fit_config a server_rnd =
     [''local_epochs'' \<mapsto> SInt (args_local_epochs a),
      ''batch_size'' \<mapsto> SInt (args_batch_size a),
      ''lr'' \<mapsto> SFloat (args_lr a),
      ''weight_decay'' \<mapsto> SFloat (args_weight_decay a),
      ''criterion_name'' \<mapsto> SStr (args_criterion a),
      ''scale'' \<mapsto> SFloat (args_scale a),
      ''margin'' \<mapsto> SFloat (args_margin a)]"

section \<open>Lists, zip and broadcasting: auxiliary facts\<close>

lemma upt_Suc_shift: "map F [0..<Suc k] = F 0 # map (\<lambda>i. F (Suc i)) [0..<k]"
proof -
  have "[0..<Suc k] = 0 # map Suc [0..<k]"
    by (simp only: map_Suc_upt upt_conv_Cons [of 0 "Suc k"] zero_less_Suc)
  then show ?thesis
    by (simp only: list.map map_map comp_def)
qed

lemma transpose_n_nth:
  "\<forall>xs \<in> set xss. k \<le> length xs \<Longrightarrow>
   transpose_n k xss = map (\<lambda>i. map (\<lambda>xs. xs ! i) xss) [0..<k]"
proof (induction k arbitrary: xss)
  case 0
  then show ?case by simp
next
  case (Suc k)
  have ne: "\<forall>xs \<in> set xss. xs \<noteq> []"
    using Suc.prems by auto
  have hd_eq: "map hd xss = map (\<lambda>xs. xs ! 0) xss"
    using ne by (simp add: hd_conv_nth)
  have "\<forall>xs \<in> set (map tl xss). k \<le> length xs"
    using Suc.prems by auto
  then have "transpose_n k (map tl xss) = map (\<lambda>i. map (\<lambda>xs. xs ! i) (map tl xss)) [0..<k]"
    by (rule Suc.IH)
  also have "\<dots> = map (\<lambda>i. map (\<lambda>xs. xs ! Suc i) xss) [0..<k]"
    using Suc.prems by (auto simp: nth_tl)
  finally have tl_eq: "transpose_n k (map tl xss) = map (\<lambda>i. map (\<lambda>xs. xs ! Suc i) xss) [0..<k]" .
  have "transpose_n (Suc k) xss = map hd xss # transpose_n k (map tl xss)"
    by simp
  also have "\<dots> = map (\<lambda>xs. xs ! 0) xss # map (\<lambda>i. map (\<lambda>xs. xs ! Suc i) xss) [0..<k]"
    by (simp only: hd_eq tl_eq)
  also have "\<dots> = map (\<lambda>i. map (\<lambda>xs. xs ! i) xss) [0..<Suc k]"
    by (simp only: upt_Suc_shift [of "\<lambda>i. map (\<lambda>xs. xs ! i) xss" k])
  finally show ?case .
qed

lemma min_list_le:
  assumes "x \<in> set xs"
  shows "min_list xs \<le> (x::nat)"
proof -
  have "xs \<noteq> []"
    using assms by auto
  then have "min_list xs = Min (set xs)"
    by (rule min_list_Min)
  then show ?thesis
    using assms by simp
qed

lemma zip_star_nth:
  "xss \<noteq> [] \<Longrightarrow>
   zip_star xss = map (\<lambda>i. map (\<lambda>xs. xs ! i) xss) [0..<min_list (map length xss)]"
  unfolding zip_star_def by (simp add: transpose_n_nth min_list_le)

lemma try_map_Inr:
  "\<forall>x \<in> set xs. f x = Inr (g x) \<Longrightarrow> try_map f xs = Inr (map g xs)"
  by (induction xs) auto


lemma try_map_map: "try_map f (map g xs) = try_map (\<lambda>x. f (g x)) xs"
  by (induction xs) (auto split: sum.splits)

lemma broadcast_dims_same: "broadcast_dims xs xs = Some xs"
  by (induction xs) auto

lemma broadcast_shapes_same: "broadcast_shapes s s = Some s"
  by (simp add: broadcast_shapes_def broadcast_dims_same)

lemma concat_chunks: "length xs = n * c \<Longrightarrow> concat (chunks n c xs) = xs"
  by (induction n arbitrary: xs) auto

lemma chunks_length: "length xs = n * c \<Longrightarrow> ys \<in> set (chunks n c xs) \<Longrightarrow> length ys = c"
proof (induction n arbitrary: xs)
  case 0
  then show ?case by simp
next
  case (Suc n)
  have "length (drop c xs) = n * c"
    using Suc.prems(1) by simp
  then show ?case
    using Suc.prems Suc.IH [of "drop c xs"] by auto
qed

lemma expand_same: "length xs = prod_list s \<Longrightarrow> expand s s xs = xs"
proof (induction s arbitrary: xs)
  case Nil
  then show ?case by simp
next
  case (Cons n s)
  have "map (expand s s) (chunks n (prod_list s) xs) = chunks n (prod_list s) xs"
    using Cons.prems by (intro map_idI Cons.IH) (auto dest: chunks_length [rotated])
  then show ?case using Cons.prems by (simp add: concat_chunks)
qed

lemma broadcast_to_same: "wf_array a \<Longrightarrow> broadcast_to a (shape a) = data a"
  by (simp add: broadcast_to_def wf_array_def expand_same)

lemma ufunc2_same_shape:
  "wf_array a \<Longrightarrow> wf_array b \<Longrightarrow> shape b = shape a \<Longrightarrow>
   ufunc2 f a b = Inr (NDArray (shape a) (map2 f (data a) (data b)))"
proof -
  assume a: "wf_array a" and b: "wf_array b" and s: "shape b = shape a"
  have "broadcast_to b (shape a) = data b"
    using broadcast_to_same [OF b] s by simp
  then show ?thesis
    by (simp add: ufunc2_def s broadcast_shapes_same broadcast_to_same [OF a])
qed

section \<open>The structure of aggregate\<close>

lemma try_map_cong: "\<forall>x \<in> set xs. f x = g x \<Longrightarrow> try_map f xs = try_map g xs"
  by (induction xs) (auto split: sum.splits)

lemma layer_count_le:
  assumes "(ws, n) \<in> set results"
  shows "layer_count results \<le> length ws"
proof -
  have "length ws \<in> set (map (\<lambda>(weights, num_examples). length weights) results)"
    using assms by force
  then show ?thesis
    unfolding layer_count_def by (rule min_list_le)
qed

lemma aggregate_unfold:
  assumes "results \<noteq> []"
  shows "aggregate results =
     try_map (\<lambda>i. average_layer (sum_list (map snd results)) (layer_updates_at results i))
       [0..<layer_count results]"
proof -
  let ?g = "\<lambda>n layer. scalar_op fl_mul layer (fl_of_int n)"
  let ?ww = "map (\<lambda>(weights, num_examples). map (?g num_examples) weights) results"
  have len: "map length ?ww = map (\<lambda>(weights, num_examples). length weights) results"
    by (simp add: case_prod_unfold)
  have ne: "?ww \<noteq> []"
    using assms by simp
  have col: "map (\<lambda>xs. xs ! i) ?ww = layer_updates_at results i" if "i < layer_count results" for i
  proof -
    have "(map (?g n) ws) ! i = ?g n (ws ! i)" if "(ws, n) \<in> set results" for ws n
      using layer_count_le [OF that] \<open>i < layer_count results\<close> by simp
    then show ?thesis
      unfolding layer_updates_at_def by (auto simp: case_prod_unfold)
  qed
  have "aggregate results = try_map (average_layer (sum_list (map snd results))) (zip_star ?ww)"
    by (simp add: aggregate_def)
  also have "zip_star ?ww = map (\<lambda>i. map (\<lambda>xs. xs ! i) ?ww) [0..<layer_count results]"
    unfolding layer_count_def len [symmetric] using ne by (rule zip_star_nth)
  also have "try_map (average_layer (sum_list (map snd results))) \<dots> =
      try_map (\<lambda>i. average_layer (sum_list (map snd results)) (map (\<lambda>xs. xs ! i) ?ww))
        [0..<layer_count results]"
    by (rule try_map_map)
  also have "\<dots> = try_map (\<lambda>i. average_layer (sum_list (map snd results)) (layer_updates_at results i))
       [0..<layer_count results]"
  proof (rule try_map_cong, rule ballI)
    fix i
    assume "i \<in> set [0..<layer_count results]"
    then have "i < layer_count results"
      by simp
    then show "average_layer (sum_list (map snd results)) (map (\<lambda>xs. xs ! i) ?ww) =
        average_layer (sum_list (map snd results)) (layer_updates_at results i)"
      by (simp only: col)
  qed
  finally show ?thesis .
qed

lemma min_list_const:
  assumes "xs \<noteq> []" and "\<forall>x \<in> set xs. x = (m::nat)"
  shows "min_list xs = m"
proof -
  have "set xs = {m}"
    using assms by (cases xs) auto
  then show ?thesis
    using min_list_Min [OF assms(1)] by simp
qed

lemma aggregate_Nil: "aggregate [] = Inr []"
  by (simp add: aggregate_def zip_star_def)



lemma foldl_map2_length:
  "\<forall>d \<in> set ds. length d = length d0 \<Longrightarrow> length (foldl (map2 f) d0 ds) = length d0"
  by (induction ds arbitrary: d0) auto

lemma foldl_map2_nth:
  "\<forall>d \<in> set ds. length d = length d0 \<Longrightarrow> j < length d0 \<Longrightarrow>
   foldl (map2 f) d0 ds ! j = foldl f (d0 ! j) (map (\<lambda>d. d ! j) ds)"
proof (induction ds arbitrary: d0)
  case Nil
  then show ?case by simp
next
  case (Cons d ds)
  have len: "length (map2 f d0 d) = length d0"
    using Cons.prems by simp
  have "foldl (map2 f) (map2 f d0 d) ds ! j = foldl f (map2 f d0 d ! j) (map (\<lambda>d. d ! j) ds)"
    using Cons.prems len by (intro Cons.IH) auto
  then show ?case
    using Cons.prems by simp
qed

lemma reduce_from_same_shape:
  "wf_array acc \<Longrightarrow> shape acc = s \<Longrightarrow> \<forall>y \<in> set ys. wf_array y \<and> shape y = s \<Longrightarrow>
   reduce_from np_add acc ys = Inr (NDArray s (foldl (map2 fl_add) (data acc) (map data ys)))"
proof (induction ys arbitrary: acc)
  case Nil
  then show ?case by auto
next
  case (Cons y ys)
  let ?acc' = "NDArray s (map2 fl_add (data acc) (data y))"
  have y: "wf_array y" "shape y = shape acc"
    using Cons.prems by auto
  have step: "np_add acc y = Inr ?acc'"
    unfolding np_add_def using ufunc2_same_shape [OF Cons.prems(1) y] Cons.prems(2) by simp
  have "wf_array ?acc'"
    using Cons.prems(1,2) y by (simp add: wf_array_def)
  then have "reduce_from np_add ?acc' ys =
      Inr (NDArray s (foldl (map2 fl_add) (data ?acc') (map data ys)))"
    using Cons.prems(3) by (intro Cons.IH) auto
  then show ?case
    using step by simp
qed

lemma same_structure_length:
  assumes "same_structure shapes results" and "(ws, n) \<in> set results"
  shows "length ws = length shapes"
proof -
  have "map shape ws = shapes"
    using assms by (auto simp: same_structure_def list_all_iff)
  then show ?thesis
    by (metis length_map)
qed

lemma same_structure_layer:
  assumes "same_structure shapes results" and "(ws, n) \<in> set results" and "i < length shapes"
  shows "shape (ws ! i) = shapes ! i" and "wf_array (ws ! i)"
proof -
  have m: "map shape ws = shapes" and w: "list_all wf_array ws"
    using assms(1,2) by (auto simp: same_structure_def list_all_iff)
  have len: "length ws = length shapes"
    using assms(1,2) by (rule same_structure_length)
  show "shape (ws ! i) = shapes ! i"
    using m len assms(3) by (metis nth_map)
  show "wf_array (ws ! i)"
    using w len assms(3) by (simp add: list_all_length)
qed

lemma layer_count_same_structure:
  assumes "results \<noteq> []" and "same_structure shapes results"
  shows "layer_count results = length shapes"
proof -
  have "\<forall>k \<in> set (map (\<lambda>(weights, num_examples). length weights) results). k = length shapes"
    using same_structure_length [OF assms(2)] by auto
  then show ?thesis
    unfolding layer_count_def using assms(1) by (intro min_list_const) simp_all
qed

lemma layer_update_props:
  assumes "same_structure shapes results" and "r \<in> set results" and "i < length shapes"
  defines "u \<equiv> scalar_op fl_mul (fst r ! i) (fl_of_int (snd r))"
  shows "wf_array u" and "shape u = shapes ! i"
    and "j < prod_list (shapes ! i) \<Longrightarrow> data u ! j = weighted_elem r i j"
proof -
  obtain ws n where r: "r = (ws, n)"
    by (cases r)
  have sh: "shape (ws ! i) = shapes ! i" and wf: "wf_array (ws ! i)"
    using same_structure_layer [OF assms(1) assms(2) [unfolded r] assms(3)] by auto
  show "wf_array u"
    using wf by (simp add: u_def r wf_array_def scalar_op_def)
  show "shape u = shapes ! i"
    using sh by (simp add: u_def r scalar_op_def)
  show "data u ! j = weighted_elem r i j" if "j < prod_list (shapes ! i)"
    using that wf sh by (simp add: u_def r wf_array_def scalar_op_def weighted_elem_def)
qed

lemma average_layer_same_structure:
  assumes ne: "results \<noteq> []" and st: "same_structure shapes results" and i: "i < length shapes"
  shows "average_layer (sum_list (map snd results)) (layer_updates_at results i) =
     Inr (NDArray (shapes ! i) (map (mean_elem results i) [0..<prod_list (shapes ! i)]))"
proof -
  let ?u = "\<lambda>r. scalar_op fl_mul (fst r ! i) (fl_of_int (snd r))"
  let ?s = "shapes ! i"
  let ?t = "fl_of_int (sum_list (map snd results))"
  obtain r rs where results: "results = r # rs"
    using ne by (cases results) auto
  have upd: "layer_updates_at results i = ?u r # map ?u rs"
    by (simp add: layer_updates_at_def results case_prod_unfold)
  have r: "wf_array (?u r)" "shape (?u r) = ?s"
    using layer_update_props(1,2) [OF st _ i, of r] by (simp_all add: results)
  have rs: "\<forall>y \<in> set (map ?u rs). wf_array y \<and> shape y = ?s"
    using layer_update_props(1,2) [OF st _ i] by (auto simp: results)
  let ?sum = "foldl (map2 fl_add) (data (?u r)) (map data (map ?u rs))"
  have red: "reduce np_add (layer_updates_at results i) = Inr (NDArray ?s ?sum)"
    unfolding upd using reduce_from_same_shape [OF r rs] by simp
  have lens: "\<forall>d \<in> set (map data (map ?u rs)). length d = length (data (?u r))"
    using r rs by (auto simp: wf_array_def)
  have len0: "length (data (?u r)) = prod_list ?s"
    using r by (simp add: wf_array_def)
  have len: "length ?sum = prod_list ?s"
    using foldl_map2_length [OF lens] len0 by simp
  have nth: "fl_div (?sum ! j) ?t = mean_elem results i j" if j: "j < prod_list ?s" for j
  proof -
    have "?sum ! j = foldl fl_add (data (?u r) ! j) (map (\<lambda>d. d ! j) (map data (map ?u rs)))"
      using foldl_map2_nth [OF lens] j len0 by simp
    also have "data (?u r) ! j = weighted_elem r i j"
      using layer_update_props(3) [OF st _ i j, of r] by (simp add: results)
    also have "map (\<lambda>d. d ! j) (map data (map ?u rs)) = map (\<lambda>r. weighted_elem r i j) rs"
      using layer_update_props(3) [OF st _ i j] by (simp add: results)
    finally show ?thesis
      by (simp add: mean_elem_def results)
  qed
  have "map (\<lambda>x. fl_div x ?t) ?sum = map (mean_elem results i) [0..<prod_list ?s]"
    using len nth by (intro nth_equalityI) simp_all
  then show ?thesis
    by (simp add: average_layer_def red scalar_op_def)
qed

lemma aggregate_same_structure:
  assumes "results \<noteq> []" and "same_structure shapes results"
  shows "aggregate results =
     Inr (map (\<lambda>i. NDArray (shapes ! i) (map (mean_elem results i) [0..<prod_list (shapes ! i)]))
            [0..<length shapes])"
  unfolding aggregate_unfold [OF assms(1)] layer_count_same_structure [OF assms]
  by (rule try_map_Inr) (simp add: average_layer_same_structure [OF assms])

lemma is_num_conv: "is_num x \<longleftrightarrow> x = Num (num_of x)"
  by (cases x) auto

lemma foldl_fl_add_Num:
  "\<forall>b \<in> set bs. is_num b \<Longrightarrow>
   foldl fl_add (Num a) bs = Num (a + sum_list (map num_of bs))"
proof (induction bs arbitrary: a)
  case Nil
  then show ?case by simp
next
  case (Cons b bs)
  then obtain y where "b = Num y"
    by (cases b) auto
  then show ?case
    using Cons by (simp add: add.assoc)
qed

lemma weighted_elem_finite:
  "is_num (data (fst r ! i) ! j) \<Longrightarrow>
   weighted_elem r i j = Num (of_int (snd r) * num_of (data (fst r ! i) ! j))"
  by (cases "data (fst r ! i) ! j") (auto simp: weighted_elem_def fl_of_int_def mult.commute)

lemma mean_elem_finite:
  assumes "results \<noteq> []"
    and "\<forall>r \<in> set results. is_num (data (fst r ! i) ! j)"
    and "sum_list (map snd results) \<noteq> 0"
  shows "mean_elem results i j =
     Num ((\<Sum>r\<leftarrow>results. of_int (snd r) * num_of (data (fst r ! i) ! j)) /
          of_int (sum_list (map snd results)))"
proof -
  let ?g = "\<lambda>r. of_int (snd r) * num_of (data (fst r ! i) ! j)"
  obtain r rs where results: "results = r # rs"
    using assms(1) by (cases results) auto
  have w: "weighted_elem r' i j = Num (?g r')" if "r' \<in> set results" for r'
    using assms(2) that by (intro weighted_elem_finite) auto
  have m: "map (\<lambda>r. weighted_elem r i j) rs = map (\<lambda>r. Num (?g r)) rs"
    using w by (simp add: results)
  have w0: "weighted_elem r i j = Num (?g r)"
    using w [of r] by (simp add: results)
  have "foldl fl_add (weighted_elem r i j) (map (\<lambda>r. weighted_elem r i j) rs) =
      foldl fl_add (Num (?g r)) (map (\<lambda>r. Num (?g r)) rs)"
    by (simp only: m w0)
  also have "\<dots> = Num (?g r + sum_list (map num_of (map (\<lambda>r. Num (?g r)) rs)))"
    by (rule foldl_fl_add_Num) auto
  also have "\<dots> = Num (\<Sum>r\<leftarrow>results. ?g r)"
    by (simp add: results comp_def)
  finally show ?thesis
    using assms(3) by (simp add: mean_elem_def fl_of_int_def results)
qed

lemma finite_results_elem:
  assumes st: "same_structure shapes results" and fin: "finite_results results"
    and r: "r \<in> set results" and i: "i < length shapes" and j: "j < prod_list (shapes ! i)"
  shows "is_num (data (fst r ! i) ! j)"
proof -
  obtain ws n where rw: "r = (ws, n)"
    by (cases r)
  have len: "length ws = length shapes"
    using st r by (auto simp: rw intro: same_structure_length)
  have sh: "shape (ws ! i) = shapes ! i" and wf: "wf_array (ws ! i)"
    using same_structure_layer [OF st r [unfolded rw] i] by auto
  have "list_all finite_array ws"
    using fin r by (auto simp: finite_results_def list_all_iff rw)
  then have "finite_array (ws ! i)"
    using i len by (simp add: list_all_length)
  then show ?thesis
    using j sh wf by (simp add: finite_array_def list_all_length wf_array_def rw)
qed

lemma aggregate_finite:
  assumes ne: "results \<noteq> []" and st: "same_structure shapes results"
    and fin: "finite_results results" and total: "sum_list (map snd results) \<noteq> 0"
  shows "aggregate results =
     Inr (map (\<lambda>i. NDArray (shapes ! i)
                 (map (\<lambda>j. Num ((\<Sum>r\<leftarrow>results. of_int (snd r) * num_of (data (fst r ! i) ! j)) /
                                 of_int (sum_list (map snd results))))
                    [0..<prod_list (shapes ! i)]))
            [0..<length shapes])"
proof -
  have "mean_elem results i j =
      Num ((\<Sum>r\<leftarrow>results. of_int (snd r) * num_of (data (fst r ! i) ! j)) /
           of_int (sum_list (map snd results)))"
    if "i < length shapes" and "j < prod_list (shapes ! i)" for i j
    using finite_results_elem [OF st fin _ that] by (intro mean_elem_finite [OF ne _ total]) simp
  then show ?thesis
    unfolding aggregate_same_structure [OF ne st] by simp
qed

section \<open>Properties of aggregate\<close>

text \<open>
  Claim C1. For a non-empty list of structurally identical contributions of finite values
  whose total number of examples is positive, \<open>aggregate\<close> returns a ParameterSet of the
  same shapes in which element \<open>j\<close> of layer \<open>i\<close> is the weighted mean: the sum over the
  clients of the number of examples times the client's element, divided by the total number
  of examples. In particular the ParameterSets \<open>[2.0]\<close> and \<open>[4.0]\<close> with 1 and 3 examples
  aggregate to \<open>[3.5]\<close>. (Finite float arithmetic is exact in this model.)
\<close>

theorem aggregate_weighted_mean:
  "(results \<noteq> [] \<and> same_structure shapes results \<and> finite_results results \<and>
    0 < sum_list (map snd results) \<longrightarrow>
      (\<exists>ws. aggregate results = Inr ws \<and> map shape ws = shapes \<and> list_all wf_array ws \<and>
         (\<forall>i < length shapes. \<forall>j < prod_list (shapes ! i).
            data (ws ! i) ! j =
              Num ((\<Sum>(weights, n)\<leftarrow>results. of_int n * num_of (data (weights ! i) ! j)) /
                   of_int (\<Sum>(weights, n)\<leftarrow>results. n))))) \<and>
   aggregate [([NDArray [1] [Num 2]], 1), ([NDArray [1] [Num 4]], 3)] =
     Inr [NDArray [1] [Num (7 / 2)]]"
proof (intro conjI impI)
  assume h: "results \<noteq> [] \<and> same_structure shapes results \<and> finite_results results \<and>
    0 < sum_list (map snd results)"
  let ?ws = "map (\<lambda>i. NDArray (shapes ! i)
                 (map (\<lambda>j. Num ((\<Sum>r\<leftarrow>results. of_int (snd r) * num_of (data (fst r ! i) ! j)) /
                                 of_int (sum_list (map snd results))))
                    [0..<prod_list (shapes ! i)]))
            [0..<length shapes]"
  have agg: "aggregate results = Inr ?ws"
    using h by (intro aggregate_finite) auto
  have sh: "map shape ?ws = shapes"
    by (simp add: comp_def map_nth)
  have wf: "list_all wf_array ?ws"
    by (simp add: list_all_iff wf_array_def)
  have el: "\<forall>i < length shapes. \<forall>j < prod_list (shapes ! i).
      data (?ws ! i) ! j =
        Num ((\<Sum>(weights, n)\<leftarrow>results. of_int n * num_of (data (weights ! i) ! j)) /
             of_int (\<Sum>(weights, n)\<leftarrow>results. n))"
    by (simp add: case_prod_unfold)
  from agg sh wf el show "\<exists>ws. aggregate results = Inr ws \<and> map shape ws = shapes \<and>
      list_all wf_array ws \<and>
      (\<forall>i < length shapes. \<forall>j < prod_list (shapes ! i).
         data (ws ! i) ! j =
           Num ((\<Sum>(weights, n)\<leftarrow>results. of_int n * num_of (data (weights ! i) ! j)) /
                of_int (\<Sum>(weights, n)\<leftarrow>results. n)))"
    by blast
next
  show "aggregate [([NDArray [1] [Num 2]], 1), ([NDArray [1] [Num 4]], 3)] =
     Inr [NDArray [1] [Num (7 / 2)]]"
    by (simp add: aggregate_def zip_star_def average_layer_def np_add_def ufunc2_def
        broadcast_shapes_def broadcast_to_def scalar_op_def fl_of_int_def)
qed

theorem aggregate_weighted_mean_witness:
  "same_structure [[2], [1]]
     [([NDArray [2] [Num 1, Num 2], NDArray [1] [Num 3]], 1),
      ([NDArray [2] [Num 3, Num 6], NDArray [1] [Num 7]], 3)] \<and>
   finite_results
     [([NDArray [2] [Num 1, Num 2], NDArray [1] [Num 3]], 1),
      ([NDArray [2] [Num 3, Num 6], NDArray [1] [Num 7]], 3)] \<and>
   (\<exists>ws. aggregate
       [([NDArray [2] [Num 1, Num 2], NDArray [1] [Num 3]], 1),
        ([NDArray [2] [Num 3, Num 6], NDArray [1] [Num 7]], 3)] = Inr ws \<and>
      map shape ws = [[2], [1]] \<and>
      data (ws ! 0) ! 0 = Num (5 / 2) \<and> data (ws ! 0) ! 1 = Num 5 \<and>
      data (ws ! 1) ! 0 = Num 6)"
proof -
  let ?R = "[([NDArray [2] [Num 1, Num 2], NDArray [1] [Num 3]], 1::int),
            ([NDArray [2] [Num 3, Num 6], NDArray [1] [Num 7]], 3)]"
  let ?S = "[[2], [1::nat]]"
  have h: "?R \<noteq> [] \<and> same_structure ?S ?R \<and> finite_results ?R \<and> 0 < sum_list (map snd ?R)"
    by (simp add: same_structure_def finite_results_def finite_array_def wf_array_def)
  note ex = aggregate_weighted_mean [of ?R ?S, THEN conjunct1, THEN mp, OF h]
  have "\<exists>ws. aggregate ?R = Inr ws \<and> map shape ws = ?S \<and>
      data (ws ! 0) ! 0 = Num (5 / 2) \<and> data (ws ! 0) ! 1 = Num 5 \<and> data (ws ! 1) ! 0 = Num 6"
    using ex
  proof (elim exE conjE)
    fix ws
    assume a: "aggregate ?R = Inr ws" and sh: "map shape ws = ?S"
      and e: "\<forall>i < length ?S. \<forall>j < prod_list (?S ! i).
          data (ws ! i) ! j =
            Num ((\<Sum>(weights, n)\<leftarrow>?R. of_int n * num_of (data (weights ! i) ! j)) /
                 of_int (\<Sum>(weights, n)\<leftarrow>?R. n))"
    have e00: "data (ws ! 0) ! 0 = Num (5 / 2)"
      using e [rule_format, of 0 0] by simp
    have e01: "data (ws ! 0) ! 1 = Num 5"
      using e [rule_format, of 0 1] by simp
    have e10: "data (ws ! 1) ! 0 = Num 6"
      using e [rule_format, of 1 0] by simp
    from a sh e00 e01 e10 show ?thesis
      by (intro exI [of _ ws] conjI)
  qed
  with h show ?thesis
    by (intro conjI) (simp_all only: simp_thms)
qed




section \<open>Properties of the per-round configuration\<close>

text \<open>
  Claim C9. The configuration that \<open>fit_config\<close> builds does not depend on the round
  number: for any two rounds it is the same mapping, with exactly the seven keys
  \<open>local_epochs\<close>, \<open>batch_size\<close>, \<open>lr\<close>, \<open>weight_decay\<close>, \<open>criterion_name\<close>,
  \<open>scale\<close> and \<open>margin\<close>, each bound to the value of the command line.
\<close>

theorem fit_config_round_independent:
  "fit_config a r1 = fit_config a r2 \<and>
   dom (fit_config a r1) =
     {''local_epochs'', ''batch_size'', ''lr'', ''weight_decay'', ''criterion_name'',
      ''scale'', ''margin''} \<and>
   fit_config a r1 ''local_epochs'' = Some (SInt (args_local_epochs a)) \<and>
   fit_config a r1 ''batch_size'' = Some (SInt (args_batch_size a)) \<and>
   fit_config a r1 ''lr'' = Some (SFloat (args_lr a)) \<and>
   fit_config a r1 ''weight_decay'' = Some (SFloat (args_weight_decay a)) \<and>
   fit_config a r1 ''criterion_name'' = Some (SStr (args_criterion a)) \<and>
   fit_config a r1 ''scale'' = Some (SFloat (args_scale a)) \<and>
   fit_config a r1 ''margin'' = Some (SFloat (args_margin a))"
proof -
  have same: "fit_config a r1 = fit_config a r2"
    by (simp add: fit_config_def)
  have keys: "dom (fit_config a r1) =
     {''local_epochs'', ''batch_size'', ''lr'', ''weight_decay'', ''criterion_name'',
      ''scale'', ''margin''}"
    by (simp add: fit_config_def insert_commute)
  have v1: "fit_config a r1 ''local_epochs'' = Some (SInt (args_local_epochs a))"
    by (simp add: fit_config_def)
  have v2: "fit_config a r1 ''batch_size'' = Some (SInt (args_batch_size a))"
    by (simp add: fit_config_def)
  have v3: "fit_config a r1 ''lr'' = Some (SFloat (args_lr a))"
    by (simp add: fit_config_def)
  have v4: "fit_config a r1 ''weight_decay'' = Some (SFloat (args_weight_decay a))"
    by (simp add: fit_config_def)
  have v5: "fit_config a r1 ''criterion_name'' = Some (SStr (args_criterion a))"
    by (simp add: fit_config_def)
  have v6: "fit_config a r1 ''scale'' = Some (SFloat (args_scale a))"
    by (simp add: fit_config_def)
  have v7: "fit_config a r1 ''margin'' = Some (SFloat (args_margin a))"
    by (simp add: fit_config_def)
  from same keys v1 v2 v3 v4 v5 v6 v7 show ?thesis
    by (intro conjI)
qed

end
